theory Spec2Isabelle
  imports Complex_Main
begin

section \<open>Common data: errors, points, decimal printing\<close>

text \<open>
  The exceptions the notebooks can raise are values of one error type. \<open>ValidationError\<close>,
  \<open>ParseError\<close>, \<open>ConfigurationError\<close> and \<open>EngineError\<close> are the names the design
  document uses.
\<close>

datatype error = IndexError | KeyError | TypeError | FileNotFound
  | ArrayNotFoundError | GroupNotFoundError | ContainsArrayError
  | ValidationError | ParseError | ConfigurationError | EngineError

text \<open>A physical point: three coordinates. Python floats are modelled as reals.\<close>

type_synonym point = "real \<times> real \<times> real"

definition nl :: char where
  "nl = CHR 0x0A"

text \<open>Python's \<open>str(n)\<close> (and \<open>f"{n}"\<close>) for a non-negative integer.\<close>

fun show_nat :: "nat \<Rightarrow> string" where
  "show_nat n =
     (if n < 10 then [''0123456789'' ! n]
      else show_nat (n div 10) @ [''0123456789'' ! (n mod 10)])"

declare show_nat.simps [simp del]


section \<open>ApplyTransformToPointSet: loading the points\<close>

text \<open>
  The markup document read by \<open>json.load\<close>: a list of markup groups, each with a list of
  control points, each with a position.
\<close>

record control_point =
  position :: point

record markup =
  controlPoints :: "control_point list"

record markup_document =
  markups :: "markup list"

text \<open>
  The point container of an \<open>itk.PointSet\<close> is a vector. \<open>InsertElement(id, element)\<close>
  grows the vector to \<open>id + 1\<close> entries when \<open>id\<close> is past the end (new entries are
  default-constructed, here \<open>filler\<close>) and then stores the element at \<open>id\<close>.
\<close>

definition InsertElement :: "'a \<Rightarrow> nat \<Rightarrow> 'a \<Rightarrow> 'a list \<Rightarrow> 'a list" where
  "InsertElement filler ident element v =
     (let v' = (if ident \<ge> length v then v @ replicate (ident + 1 - length v) filler else v)
      in v'[ident := element])"

definition GetNumberOfPoints :: "'a list \<Rightarrow> nat" where
  "GetNumberOfPoints v = length v"

definition origin_point :: point where
  "origin_point = (0, 0, 0)"

text \<open>
  \<^verbatim>\<open>
  input_points = itk.PointSet[itk.F, 3].New()
  for point_id, point in enumerate(points_markup["markups"][0]["controlPoints"]):
      input_points.GetPoints().InsertElement(point_id, point["position"])
  \<close>
  Indexing an empty \<open>markups\<close> list with 0 raises IndexError.
\<close>

definition load_points :: "markup_document \<Rightarrow> error + point list" where
  "load_points points_markup =
     (case markups points_markup of
        [] \<Rightarrow> Inl IndexError
      | m # _ \<Rightarrow>
          Inr (fold (\<lambda>(point_id, point) input_points.
                       InsertElement origin_point point_id (position point) input_points)
                    (enumerate 0 (controlPoints m)) []))"

section \<open>ApplyTransformToPointSet: the initial transform\<close>

text \<open>
  \<^verbatim>\<open>
  init_points = itk.PointSet[itk.F, 3].New()
  for idx in range(input_points.GetNumberOfPoints()):
      point = input_points.GetPoint(idx)
      init_points.GetPoints().InsertElement(idx, init_transform.TransformPoint(point))
  \<close>
  The transform is any function on points; \<open>idx\<close> stays below the number of points, so
  \<open>GetPoint\<close> never reads out of range.
\<close>

definition apply_init_transform :: "(point \<Rightarrow> point) \<Rightarrow> point list \<Rightarrow> point list" where
  "apply_init_transform TransformPoint input_points =
     fold (\<lambda>idx init_points.
             let point = input_points ! idx
             in InsertElement origin_point idx (TransformPoint point) init_points)
          [0..<GetNumberOfPoints input_points] []"

section \<open>ApplyTransformToPointSet: the transformix input table\<close>

text \<open>
  \<^verbatim>\<open>
  with open(TRANSFORMIX_POINTSET_FILE, "w") as f:
      f.write("point\n")
      f.write(f"{init_points.GetNumberOfPoints()}\n")
      for idx in range(init_points.GetNumberOfPoints()):
          point = init_points.GetPoint(idx)
          f.write(f"{point[0]} {point[1]} {point[2]}\n")
  \<close>
  The file is the string written so far; \<open>fmt\<close> is Python's formatting of one float.
\<close>

definition write_point_table :: "(real \<Rightarrow> string) \<Rightarrow> point list \<Rightarrow> string" where
  "write_point_table fmt init_points =
     fold (\<lambda>idx f.
             case init_points ! idx of
               (p0, p1, p2) \<Rightarrow> f @ fmt p0 @ '' '' @ fmt p1 @ '' '' @ fmt p2 @ [nl])
          [0..<GetNumberOfPoints init_points]
          ((''point'' @ [nl]) @ show_nat (GetNumberOfPoints init_points) @ [nl])"

text \<open>The lines of a text: each line ends at a newline; a last unterminated line counts.\<close>

fun lines_from :: "string \<Rightarrow> string \<Rightarrow> string list" where
  "lines_from cur [] = (if cur = [] then [] else [cur])"
| "lines_from cur (c # cs) =
     (if c = nl then cur # lines_from [] cs else lines_from (cur @ [c]) cs)"

definition lines_of :: "string \<Rightarrow> string list" where
  "lines_of s = lines_from [] s"

section \<open>ApplyTransformToPointSet: the linear stage\<close>

type_synonym matrix = "(real \<times> real \<times> real) \<times> (real \<times> real \<times> real) \<times> (real \<times> real \<times> real)"

definition identity_matrix :: matrix where
  "identity_matrix = ((1, 0, 0), (0, 1, 0), (0, 0, 1))"

definition mat_vec :: "matrix \<Rightarrow> point \<Rightarrow> point" where
  "mat_vec m p =
     (case m of ((a, b, c), (d, e, f), (g, h, i)) \<Rightarrow>
      case p of (x, y, z) \<Rightarrow>
        (a * x + b * y + c * z, d * x + e * y + f * z, g * x + h * y + i * z))"

definition vec_add :: "point \<Rightarrow> point \<Rightarrow> point" where
  "vec_add p q = (case p of (x, y, z) \<Rightarrow> case q of (u, v, w) \<Rightarrow> (x + u, y + v, z + w))"

definition vec_sub :: "point \<Rightarrow> point \<Rightarrow> point" where
  "vec_sub p q = (case p of (x, y, z) \<Rightarrow> case q of (u, v, w) \<Rightarrow> (x - u, y - v, z - w))"

text \<open>
  The initial transform read by \<open>itk.transformread\<close>; the notebook prints its Matrix,
  Center and Translation (and the Offset derived from them).
\<close>

record linear_transform =
  Matrix :: matrix
  Center :: point
  Translation :: point

text \<open>
  Modelled from the spec: the linear stage is a matrix, a translation and a rotation
  centre, evaluated by matrix arithmetic on every point. \<open>TransformPoint\<close> is a method of
  the transform object that \<open>itk.transformread\<close> returns; its code is not part of the
  notebooks. The point is rotated about the centre and then translated, which is
  \<open>Matrix * p + Offset\<close> with \<open>Offset = Translation + Center - Matrix * Center\<close>.
\<close>

definition Offset :: "linear_transform \<Rightarrow> point" where
  "Offset t = vec_sub (vec_add (Translation t) (Center t)) (mat_vec (Matrix t) (Center t))"

definition TransformPoint :: "linear_transform \<Rightarrow> point \<Rightarrow> point" where
  "TransformPoint t p = vec_add (mat_vec (Matrix t) p) (Offset t)"

section \<open>ApplyTransformToPointSet: the transformix parameter chain\<close>

definition TRANSFORMS_PATH :: string where
  "TRANSFORMS_PATH = ''../data/demo_registration_results_631680''"

definition N_ELASTIX_STAGES :: nat where
  "N_ELASTIX_STAGES = 3"

definition ELASTIX_TRANSFORM_FILENAMES :: "string list" where
  "ELASTIX_TRANSFORM_FILENAMES =
     map (\<lambda>index. TRANSFORMS_PATH @ ''/elastix-transform'' @ show_nat index @ ''.txt'')
         [0..<N_ELASTIX_STAGES]"

text \<open>
  An \<open>itk.ParameterObject\<close> holds a vector of parameter maps. \<open>ReadParameterFile\<close> replaces
  the vector by the one map read from the file (the file system is a partial map from
  file names to parameter maps; a missing file raises), \<open>GetParameterMap\<close> reads an entry
  and \<open>AddParameterMap\<close> appends one.
\<close>

record 'm ParameterObject =
  parameter_maps :: "'m list"

definition ParameterObject_New :: "'m ParameterObject" where
  "ParameterObject_New = \<lparr>parameter_maps = []\<rparr>"

definition ReadParameterFile ::
  "(string \<rightharpoonup> 'm) \<Rightarrow> string \<Rightarrow> 'm ParameterObject \<Rightarrow> error + 'm ParameterObject" where
  "ReadParameterFile files filename po =
     (case files filename of
        None \<Rightarrow> Inl FileNotFound
      | Some m \<Rightarrow> Inr (po\<lparr>parameter_maps := [m]\<rparr>))"

definition GetParameterMap :: "'m ParameterObject \<Rightarrow> nat \<Rightarrow> error + 'm" where
  "GetParameterMap po index =
     (if index < length (parameter_maps po) then Inr (parameter_maps po ! index)
      else Inl IndexError)"

definition AddParameterMap :: "'m \<Rightarrow> 'm ParameterObject \<Rightarrow> 'm ParameterObject" where
  "AddParameterMap m po = po\<lparr>parameter_maps := parameter_maps po @ [m]\<rparr>"

text \<open>
  \<^verbatim>\<open>
  toplevel_param = itk.ParameterObject.New()
  param = itk.ParameterObject.New()
  for elastix_transform_filename in ELASTIX_TRANSFORM_FILENAMES:
      param.ReadParameterFile(elastix_transform_filename)
      toplevel_param.AddParameterMap(param.GetParameterMap(0))
  \<close>
  The loop threads both objects; \<open>param\<close> is reused by every iteration.
\<close>

fun read_stages ::
  "(string \<rightharpoonup> 'm) \<Rightarrow> string list \<Rightarrow> 'm ParameterObject \<times> 'm ParameterObject
     \<Rightarrow> error + 'm ParameterObject \<times> 'm ParameterObject" where
  "read_stages files [] (toplevel_param, param) = Inr (toplevel_param, param)"
| "read_stages files (elastix_transform_filename # rest) (toplevel_param, param) =
     (case ReadParameterFile files elastix_transform_filename param of
        Inl e \<Rightarrow> Inl e
      | Inr param' \<Rightarrow>
          (case GetParameterMap param' 0 of
             Inl e \<Rightarrow> Inl e
           | Inr m \<Rightarrow> read_stages files rest (AddParameterMap m toplevel_param, param')))"

definition build_parameter_chain ::
  "(string \<rightharpoonup> 'm) \<Rightarrow> string list \<Rightarrow> error + 'm ParameterObject" where
  "build_parameter_chain files filenames =
     (case read_stages files filenames (ParameterObject_New, ParameterObject_New) of
        Inl e \<Rightarrow> Inl e
      | Inr (toplevel_param, param) \<Rightarrow> Inr toplevel_param)"

section \<open>ApplyTransformToPointSet: the transformix call\<close>

text \<open>
  \<^verbatim>\<open>
  result_point_set = itk.transformix_pointset(
      average_template, toplevel_param,
      fixed_point_set_file_name=TRANSFORMIX_POINTSET_FILE,
      output_directory=RESULTS_PATH)
  \<close>
\<close>

text \<open>
  Modelled from the spec: the external resampling engine behind \<open>itk.transformix_pointset\<close>;
  its code is not part of the repository's sources. Following the design document, the
  engine takes the point file (line 1 the literal \<open>point\<close>, line 2 the point count N, then N
  lines \<open>x y z\<close>) and the ordered parameter chain, and returns one result row per point of
  the file, in file order; a row holds the input point and the output point, which is the
  input point taken through the stages of the chain in chain order. What one stage does
  to a point is the parameter \<open>stage\<close>, how the engine reads a number is the parameter
  \<open>parse\<close>, and a file that is not of that form is an engine error. The reference image
  fixes the output grid and the index groups of a row, which are not modelled.
\<close>

definition digit_value :: "char \<Rightarrow> nat option" where
  "digit_value c =
     (let v = (of_char c :: nat) in if 48 \<le> v \<and> v \<le> 57 then Some (v - 48) else None)"

fun read_nat_from :: "nat \<Rightarrow> string \<Rightarrow> nat option" where
  "read_nat_from acc [] = Some acc"
| "read_nat_from acc (c # cs) =
     (case digit_value c of None \<Rightarrow> None | Some d \<Rightarrow> read_nat_from (10 * acc + d) cs)"

definition read_nat :: "string \<Rightarrow> nat option" where
  "read_nat s = (if s = [] then None else read_nat_from 0 s)"

fun fields_from :: "string \<Rightarrow> string \<Rightarrow> string list" where
  "fields_from cur [] = [cur]"
| "fields_from cur (c # cs) =
     (if c = CHR '' '' then cur # fields_from [] cs else fields_from (cur @ [c]) cs)"

definition parse_point :: "(string \<Rightarrow> real option) \<Rightarrow> string \<Rightarrow> error + point" where
  "parse_point parse line =
     (case map parse (fields_from [] line) of
        [Some x, Some y, Some z] \<Rightarrow> Inr (x, y, z)
      | _ \<Rightarrow> Inl EngineError)"

fun parse_points :: "(string \<Rightarrow> real option) \<Rightarrow> string list \<Rightarrow> error + point list" where
  "parse_points parse [] = Inr []"
| "parse_points parse (line # rest) =
     (case parse_point parse line of
        Inl e \<Rightarrow> Inl e
      | Inr p \<Rightarrow>
          (case parse_points parse rest of
             Inl e \<Rightarrow> Inl e
           | Inr ps \<Rightarrow> Inr (p # ps)))"

definition read_point_file :: "(string \<Rightarrow> real option) \<Rightarrow> string \<Rightarrow> error + point list" where
  "read_point_file parse content =
     (case lines_of content of
        header # count # rest \<Rightarrow>
          if header \<noteq> ''point'' then Inl EngineError
          else
            (case read_nat count of
               None \<Rightarrow> Inl EngineError
             | Some n \<Rightarrow>
                 if length rest < n then Inl EngineError
                 else parse_points parse (take n rest))
      | _ \<Rightarrow> Inl EngineError)"

record result_row =
  InputPoint :: point
  OutputPoint :: point

definition transformix_pointset ::
  "('m \<Rightarrow> point \<Rightarrow> point) \<Rightarrow> (string \<Rightarrow> real option) \<Rightarrow> 'm ParameterObject \<Rightarrow> string
     \<Rightarrow> error + result_row list" where
  "transformix_pointset stage parse toplevel_param point_file =
     (case read_point_file parse point_file of
        Inl e \<Rightarrow> Inl e
      | Inr points \<Rightarrow>
          Inr (map (\<lambda>p. \<lparr>InputPoint = p,
                           OutputPoint = fold stage (parameter_maps toplevel_param) p\<rparr>)
                   points))"

text \<open>
  Point mode from the loaded points to the result rows: the loop of the initial transform,
  the table written for transformix, and the transformix call on that table with the
  parameter chain.
\<close>

definition apply_transform_stack ::
  "(point \<Rightarrow> point) \<Rightarrow> ('m \<Rightarrow> point \<Rightarrow> point) \<Rightarrow> 'm ParameterObject
     \<Rightarrow> (real \<Rightarrow> string) \<Rightarrow> (string \<Rightarrow> real option) \<Rightarrow> point list
     \<Rightarrow> error + result_row list" where
  "apply_transform_stack init_transform stage toplevel_param fmt parse input_points =
     (let init_points = apply_init_transform init_transform input_points;
          point_file = write_point_table fmt init_points
      in transformix_pointset stage parse toplevel_param point_file)"

text \<open>
  A coordinate survives writing when its text has no newline and no space and the engine
  reads the same number back from it.
\<close>

definition coordinates :: "point \<Rightarrow> real list" where
  "coordinates p = (case p of (x, y, z) \<Rightarrow> [x, y, z])"

definition survives_writing :: "(real \<Rightarrow> string) \<Rightarrow> (string \<Rightarrow> real option) \<Rightarrow> real \<Rightarrow> bool" where
  "survives_writing fmt parse x \<longleftrightarrow>
     nl \<notin> set (fmt x) \<and> CHR '' '' \<notin> set (fmt x) \<and> parse (fmt x) = Some x"

section \<open>ApplyTransformToPointSet: showing the transformix result\<close>

text \<open>Python's \<open>xs[start:stop]\<close> for non-negative bounds: out-of-range bounds are clipped.\<close>

definition py_slice :: "nat \<Rightarrow> nat \<Rightarrow> 'a list \<Rightarrow> 'a list" where
  "py_slice start stop xs = take (stop - start) (drop start xs)"

text \<open>
  \<^verbatim>\<open>
  print("\n".join([f"{output_point[11:18]} -> {output_point[27:35]}"
                   for output_point in result_point_set]))
  \<close>
  A row of the result is a sequence (of the whitespace-separated fields of one line of
  \<open>outputpoints.txt\<close>); the two parts shown are cut out of it by position.
\<close>

definition result_point_fields :: "'a list \<Rightarrow> 'a list \<times> 'a list" where
  "result_point_fields output_point = (py_slice 11 18 output_point, py_slice 27 35 output_point)"

fun join :: "string \<Rightarrow> string list \<Rightarrow> string" where
  "join sep [] = []"
| "join sep [x] = x"
| "join sep (x # y # ys) = x @ sep @ join sep (y # ys)"

definition result_point_text :: "('a list \<Rightarrow> string) \<Rightarrow> 'a list list \<Rightarrow> string" where
  "result_point_text str result_point_set =
     join [nl]
       (map (\<lambda>output_point.
               str (fst (result_point_fields output_point)) @ '' -> '' @
               str (snd (result_point_fields output_point)))
            result_point_set)"

text \<open>
  The extraction the design document describes, for comparison with the code: find the
  label, then read the bracketed triple that follows it; a line without the labelled
  group is a parse error.
\<close>

fun spec_labeled_triple :: "string \<Rightarrow> string list \<Rightarrow> error + string \<times> string \<times> string" where
  "spec_labeled_triple label [] = Inl ParseError"
| "spec_labeled_triple label (t # ts) =
     (if t = label then
        (case ts of
           eq # lb # x # y # z # rb # _ \<Rightarrow>
             if eq = ''='' \<and> lb = ''['' \<and> rb = '']'' then Inr (x, y, z) else Inl ParseError
         | _ \<Rightarrow> Inl ParseError)
      else spec_labeled_triple label ts)"

definition spec_parse_result_line ::
  "string list \<Rightarrow> error + (string \<times> string \<times> string) \<times> (string \<times> string \<times> string)" where
  "spec_parse_result_line row =
     (case spec_labeled_triple ''InputPoint'' row of
        Inl e \<Rightarrow> Inl e
      | Inr a \<Rightarrow>
          (case spec_labeled_triple ''OutputPoint'' row of
             Inl e \<Rightarrow> Inl e
           | Inr b \<Rightarrow> Inr (a, b)))"

section \<open>LocalFetchFromS3: the cached store\<close>

text \<open>
  \<^verbatim>\<open>
  store = s3fs.S3Map(root=channel_bucket, s3=fs, check=False)
  cache = zarr.LRUStoreCache(store, max_size=2**28)
  root = zarr.group(store=cache)
  \<close>
  The underlying store is a partial map from keys to stored values; it is only read.
  \<open>LRUStoreCache\<close> is a class of the zarr library, modelled as that library defines it: the
  cache object keeps, least recently used first, the values it holds, and the sum of their
  byte sizes (\<open>buffer_size\<close> gives the byte size of a value), and counts hits and misses.
  It also remembers, key by key and in the order asked, the answer of every membership
  test (\<open>contains_cache\<close>), the key listing of the store once it has been asked for
  (\<open>keys_cache\<close>) and directory listings (\<open>listdir_cache\<close>); nothing in the notebook asks
  for a listing after the group is opened.
\<close>

record 'v LRUStoreCache =
  max_size :: nat
  current_size :: int
  keys_cache :: "string list option"
  contains_cache :: "(string \<times> bool) list"
  listdir_cache :: "(string \<times> string list) list"
  values_cache :: "(string \<times> 'v) list"
  hits :: nat
  misses :: nat

definition LRUStoreCache_new :: "nat \<Rightarrow> 'v LRUStoreCache" where
  "LRUStoreCache_new mx =
     \<lparr>max_size = mx, current_size = 0, keys_cache = None, contains_cache = [],
      listdir_cache = [], values_cache = [], hits = 0, misses = 0\<rparr>"


text \<open>
  Making room: while the new value does not fit, the first (least recently used) entry is
  popped and its size given back. Popping from an empty dictionary raises KeyError.
\<close>

fun accommodate_value ::
  "('v \<Rightarrow> nat) \<Rightarrow> nat \<Rightarrow> nat \<Rightarrow> (string \<times> 'v) list \<Rightarrow> int
     \<Rightarrow> error option \<times> (string \<times> 'v) list \<times> int" where
  "accommodate_value buffer_size mx value_size [] cur =
     (if cur + int value_size > int mx then (Some KeyError, [], cur) else (None, [], cur))"
| "accommodate_value buffer_size mx value_size ((k, v) # rest) cur =
     (if cur + int value_size > int mx
      then accommodate_value buffer_size mx value_size rest (cur - int (buffer_size v))
      else (None, (k, v) # rest, cur))"

text \<open>Assignment in an ordered dictionary: a new key goes to the end, an old one keeps its place.\<close>

definition od_set :: "string \<Rightarrow> 'v \<Rightarrow> (string \<times> 'v) list \<Rightarrow> (string \<times> 'v) list" where
  "od_set key val vs =
     (if key \<in> fst ` set vs then map (\<lambda>(k, v). if k = key then (k, val) else (k, v)) vs
      else vs @ [(key, val)])"

definition move_to_end :: "string \<Rightarrow> 'v \<Rightarrow> (string \<times> 'v) list \<Rightarrow> (string \<times> 'v) list" where
  "move_to_end key val vs = filter (\<lambda>kv. fst kv \<noteq> key) vs @ [(key, val)]"

text \<open>A value larger than \<open>max_size\<close> is never cached.\<close>

definition cache_value ::
  "('v \<Rightarrow> nat) \<Rightarrow> string \<Rightarrow> 'v \<Rightarrow> 'v LRUStoreCache \<Rightarrow> error option \<times> 'v LRUStoreCache" where
  "cache_value buffer_size key val c =
     (let value_size = buffer_size val in
      if value_size \<le> max_size c then
        (case accommodate_value buffer_size (max_size c) value_size
                (values_cache c) (current_size c) of
           (Some e, vs, cur) \<Rightarrow> (Some e, c\<lparr>current_size := cur, values_cache := vs\<rparr>)
         | (None, vs, cur) \<Rightarrow>
             (None, c\<lparr>current_size := cur + int value_size,
                       values_cache := od_set key val vs\<rparr>))
      else (None, c))"

text \<open>
  Reading a key: a cached value is returned and becomes the most recently used; otherwise
  the value is read from the underlying store (KeyError when the store has no such key,
  and then the cache object is left as it was) and cached.
\<close>

definition LRUStoreCache_getitem ::
  "('v \<Rightarrow> nat) \<Rightarrow> (string \<rightharpoonup> 'v) \<Rightarrow> 'v LRUStoreCache \<Rightarrow> string
     \<Rightarrow> (error + 'v) \<times> 'v LRUStoreCache" where
  "LRUStoreCache_getitem buffer_size store c key =
     (case map_of (values_cache c) key of
        Some val \<Rightarrow>
          (Inr val, c\<lparr>values_cache := move_to_end key val (values_cache c),
                       hits := hits c + 1\<rparr>)
      | None \<Rightarrow>
          (case store key of
             None \<Rightarrow> (Inl KeyError, c)
           | Some val \<Rightarrow>
               (case cache_value buffer_size key val (c\<lparr>misses := misses c + 1\<rparr>) of
                  (Some e, c') \<Rightarrow> (Inl e, c')
                | (None, c') \<Rightarrow> (Inr val, c'))))"

text \<open>A run of reads through the cache, as reading the chunks of an array makes them.\<close>

fun read_keys ::
  "('v \<Rightarrow> nat) \<Rightarrow> (string \<rightharpoonup> 'v) \<Rightarrow> 'v LRUStoreCache \<Rightarrow> string list \<Rightarrow> 'v LRUStoreCache" where
  "read_keys buffer_size store c [] = c"
| "read_keys buffer_size store c (key # keys) =
     read_keys buffer_size store (snd (LRUStoreCache_getitem buffer_size store c key)) keys"






text \<open>
  What the cache object maintains: \<open>current_size\<close> is the sum of the byte sizes of the
  cached values and stays within \<open>max_size\<close>, and no key is cached twice.
\<close>

definition cached_bytes :: "('v \<Rightarrow> nat) \<Rightarrow> (string \<times> 'v) list \<Rightarrow> int" where
  "cached_bytes buffer_size vs = (\<Sum>kv\<leftarrow>vs. int (buffer_size (snd kv)))"

definition cache_inv :: "('v \<Rightarrow> nat) \<Rightarrow> 'v LRUStoreCache \<Rightarrow> bool" where
  "cache_inv buffer_size c \<longleftrightarrow>
     current_size c = cached_bytes buffer_size (values_cache c) \<and>
     current_size c \<le> int (max_size c) \<and>
     distinct (map fst (values_cache c))"





section \<open>LocalFetchFromS3: orientation codes\<close>

text \<open>
  An orientation code names, for each of the three array axes, an anatomical direction.
  The notebook uses the codes RAI (given) and LPS (desired).
\<close>

datatype anatomical_direction =
  To_Right | To_Left | To_Anterior | To_Posterior | To_Inferior | To_Superior

type_synonym orientation_code =
  "anatomical_direction \<times> anatomical_direction \<times> anatomical_direction"

definition RAI :: orientation_code where
  "RAI = (To_Right, To_Anterior, To_Inferior)"

definition LPS :: orientation_code where
  "LPS = (To_Left, To_Posterior, To_Superior)"

text \<open>
  Modelled from the spec: the orientation reconciliation of the CoordinateFrameResolver.
  The notebook hands the computation to \<open>itk.OrientImageFilter\<close>, whose code is not part
  of the repository's sources. Following the design document, each code gives every array
  axis one anatomical axis and one sign, no two array axes share an anatomical axis (a
  code that breaks this is not recognised: ConfigurationError), and reconciling a source
  code with a target code multiplies the direction matrix from the left by the signed
  permutation matrix that maps the source basis vectors to the target basis vectors.
\<close>

fun anatomical_axis :: "anatomical_direction \<Rightarrow> nat" where
  "anatomical_axis To_Right = 0"
| "anatomical_axis To_Left = 0"
| "anatomical_axis To_Anterior = 1"
| "anatomical_axis To_Posterior = 1"
| "anatomical_axis To_Inferior = 2"
| "anatomical_axis To_Superior = 2"

fun basis_vector :: "anatomical_direction \<Rightarrow> point" where
  "basis_vector To_Left = (1, 0, 0)"
| "basis_vector To_Right = (-1, 0, 0)"
| "basis_vector To_Posterior = (0, 1, 0)"
| "basis_vector To_Anterior = (0, -1, 0)"
| "basis_vector To_Superior = (0, 0, 1)"
| "basis_vector To_Inferior = (0, 0, -1)"

definition valid_orientation :: "orientation_code \<Rightarrow> bool" where
  "valid_orientation code =
     (case code of (a, b, c) \<Rightarrow>
        anatomical_axis a \<noteq> anatomical_axis b \<and>
        anatomical_axis a \<noteq> anatomical_axis c \<and>
        anatomical_axis b \<noteq> anatomical_axis c)"

definition transpose3 :: "matrix \<Rightarrow> matrix" where
  "transpose3 m =
     (case m of ((a, b, c), (d, e, f), (g, h, i)) \<Rightarrow> ((a, d, g), (b, e, h), (c, f, i)))"

definition mat_mul :: "matrix \<Rightarrow> matrix \<Rightarrow> matrix" where
  "mat_mul m n =
     (case transpose3 n of (c0, c1, c2) \<Rightarrow>
        transpose3 (mat_vec m c0, mat_vec m c1, mat_vec m c2))"

text \<open>The matrix whose columns are the basis vectors of the three array axes.\<close>

definition basis_matrix :: "orientation_code \<Rightarrow> matrix" where
  "basis_matrix code =
     (case code of (a, b, c) \<Rightarrow> transpose3 (basis_vector a, basis_vector b, basis_vector c))"

definition signed_permutation :: "orientation_code \<Rightarrow> orientation_code \<Rightarrow> matrix" where
  "signed_permutation source target =
     mat_mul (basis_matrix target) (transpose3 (basis_matrix source))"

definition reconcile_direction ::
  "orientation_code \<Rightarrow> orientation_code \<Rightarrow> matrix \<Rightarrow> error + matrix" where
  "reconcile_direction source target direction =
     (if valid_orientation source \<and> valid_orientation target
      then Inr (mat_mul (signed_permutation source target) direction)
      else Inl ConfigurationError)"

section \<open>LocalFetchFromS3: the image and its metadata\<close>

text \<open>
  \<^verbatim>\<open>
  voxel_array = np.squeeze(np.asarray(root[4]))
  itk_image = itk.image_view_from_array(voxel_array.astype(np.float32))
  \<close>
  An array is its shape and its elements in storage order. \<open>squeeze\<close> drops the axes of
  length one, \<open>astype\<close> converts every element, and the image made from an array views the
  array's elements as its pixel buffer; its size is the shape reversed, its spacing 1, its
  origin 0 and its direction the identity.
\<close>

record 'a ndarray =
  shape :: "nat list"
  elements :: "'a list"

definition squeeze :: "'a ndarray \<Rightarrow> 'a ndarray" where
  "squeeze a = a\<lparr>shape := filter (\<lambda>d. d \<noteq> 1) (shape a)\<rparr>"

definition astype :: "('a \<Rightarrow> 'b) \<Rightarrow> 'a ndarray \<Rightarrow> 'b ndarray" where
  "astype conv a = \<lparr>shape = shape a, elements = map conv (elements a)\<rparr>"

record image_information =
  LargestPossibleRegion :: "nat list"
  Spacing :: "real list"
  Origin :: "real list"
  Direction :: "real list list"

record 'px image = image_information +
  BufferedRegion :: "nat list"
  PixelContainer :: "'px list"

definition image_view_from_array :: "'px ndarray \<Rightarrow> 'px image" where
  "image_view_from_array a =
     (let n = length (shape a) in
      \<lparr>LargestPossibleRegion = rev (shape a),
       Spacing = replicate n 1,
       Origin = replicate n 0,
       Direction = map (\<lambda>i. map (\<lambda>j. if i = j then 1 else 0) [0..<n]) [0..<n],
       BufferedRegion = rev (shape a),
       PixelContainer = elements a\<rparr>)"

text \<open>Setting the spacing needs one value per image dimension.\<close>

definition SetSpacing :: "real list \<Rightarrow> 'px image \<Rightarrow> error + 'px image" where
  "SetSpacing s img =
     (if length s = length (LargestPossibleRegion img) then Inr (img\<lparr>Spacing := s\<rparr>)
      else Inl TypeError)"

text \<open>
  \<open>CopyInformation\<close> takes the largest possible region, the spacing, the origin and the
  direction of another image; the buffered region and the pixel buffer are not touched.
\<close>

definition CopyInformation :: "'px image \<Rightarrow> image_information \<Rightarrow> 'px image" where
  "CopyInformation img info =
     img\<lparr>LargestPossibleRegion := LargestPossibleRegion info,
         Spacing := Spacing info,
         Origin := Origin info,
         Direction := Direction info\<rparr>"

definition information_of :: "'px image \<Rightarrow> image_information" where
  "information_of img =
     \<lparr>LargestPossibleRegion = LargestPossibleRegion img, Spacing = Spacing img,
      Origin = Origin img, Direction = Direction img\<rparr>"

definition axis_spacings :: "string \<rightharpoonup> real" where
  "axis_spacings = [''x'' \<mapsto> 0.028800000000000003, ''y'' \<mapsto> 0.028800000000000003, ''z'' \<mapsto> 0.032]"

definition itk_spatial_axes :: "string list" where
  "itk_spatial_axes = [''x'', ''y'', ''z'']"

text \<open>
  \<^verbatim>\<open>
  itk_image.SetSpacing([axis_spacings[axis_name] for axis_name in itk_spatial_axes])
  orient_filter = itk.OrientImageFilter.New(itk_image)
  orient_filter.SetGivenCoordinateOrientation(INPUT_COORDINATE_ORIENTATION)
  orient_filter.SetDesiredCoordinateOrientation(..._ITK_COORDINATE_ORIENTATION_LPS)
  orient_filter.UpdateOutputInformation()
  itk_image.CopyInformation(orient_filter.GetOutput())
  itk.imwrite(itk_image, SMARTSPIM_OUTPUT_FILENAME, compression=True)
  \<close>
  The filter is asked for the information of its output only, never for its pixels; what
  it computes from the two codes and the information of its input is the parameter
  \<open>orient\<close>. The three axis names are keys of \<open>axis_spacings\<close>, so the dictionary lookups
  succeed. The result is the image handed to \<open>itk.imwrite\<close>.
\<close>

definition reorient_image ::
  "(orientation_code \<Rightarrow> orientation_code \<Rightarrow> image_information \<Rightarrow> error + image_information)
     \<Rightarrow> 'px image \<Rightarrow> error + 'px image" where
  "reorient_image orient itk_image =
     (case SetSpacing (map (\<lambda>axis_name. the (axis_spacings axis_name)) itk_spatial_axes) itk_image of
        Inl e \<Rightarrow> Inl e
      | Inr itk_image' \<Rightarrow>
          (case orient RAI LPS (information_of itk_image') of
             Inl e \<Rightarrow> Inl e
           | Inr output_information \<Rightarrow> Inr (CopyInformation itk_image' output_information)))"

definition fetch_and_reorient ::
  "('a \<Rightarrow> 'px)
     \<Rightarrow> (orientation_code \<Rightarrow> orientation_code \<Rightarrow> image_information \<Rightarrow> error + image_information)
     \<Rightarrow> 'a ndarray \<Rightarrow> error + 'px image" where
  "fetch_and_reorient float32 orient level_array =
     (let voxel_array = squeeze level_array;
          itk_image = image_view_from_array (astype float32 voxel_array)
      in reorient_image orient itk_image)"

section \<open>Properties of point loading and of the initial transform\<close>

lemma InsertElement_at_end:
  "InsertElement d (length v) e v = v @ [e]"
  by (simp add: InsertElement_def)

lemma insert_enumerated:
  "fold (\<lambda>(i, p) v. InsertElement d i (g p) v) (enumerate (length acc) xs) acc
     = acc @ map g xs"
proof (induction xs arbitrary: acc)
  case Nil
  show ?case by simp
next
  case (Cons x xs)
  have "fold (\<lambda>(i, p) v. InsertElement d i (g p) v) (enumerate (length acc) (x # xs)) acc
      = fold (\<lambda>(i, p) v. InsertElement d i (g p) v)
          (enumerate (length (acc @ [g x])) xs) (acc @ [g x])"
    by (simp add: InsertElement_at_end)
  also have "\<dots> = (acc @ [g x]) @ map g xs"
    by (rule Cons.IH)
  finally show ?case by simp
qed

lemma insert_by_index:
  "k \<le> length xs \<Longrightarrow>
   fold (\<lambda>idx v. let p = xs ! idx in InsertElement d idx (g p) v) [0..<k] []
     = map g (take k xs)"
proof (induction k)
  case 0
  show ?case by simp
next
  case (Suc k)
  then have k: "k < length xs" by simp
  with Suc have "fold (\<lambda>idx v. let p = xs ! idx in InsertElement d idx (g p) v) [0..<k] []
      = map g (take k xs)" by simp
  moreover have "length (map g (take k xs)) = k" using k by simp
  ultimately have "fold (\<lambda>idx v. let p = xs ! idx in InsertElement d idx (g p) v) [0..<Suc k] []
      = map g (take k xs) @ [g (xs ! k)]"
    using InsertElement_at_end [of d "map g (take k xs)" "g (xs ! k)"] by simp
  then show ?case using k by (simp add: take_Suc_conv_app_nth)
qed

text \<open>
  Claim C9. When the markup document has more than one markup group, the loaded point set
  holds exactly the positions of the control points of group 0, in order; the control
  points of every other group are ignored.
\<close>

theorem load_points_first_group_only:
  "load_points \<lparr>markups = m # others\<rparr> = Inr (map position (controlPoints m))"
  using insert_enumerated [of origin_point position "[]" "controlPoints m"]
  by (simp add: load_points_def)

section \<open>The written point table\<close>

lemma show_nat_no_nl: "nl \<notin> set (show_nat n)"
proof (induction n rule: show_nat.induct)
  case (1 n)
  have d: "\<And>k. k < 10 \<Longrightarrow> ''0123456789'' ! k \<noteq> nl"
  proof -
    fix k :: nat assume "k < 10"
    then have "k \<in> {0,1,2,3,4,5,6,7,8,9}" by auto
    then show "''0123456789'' ! k \<noteq> nl" by (auto simp: nl_def)
  qed
  show ?case
  proof (cases "n < 10")
    case True
    then show ?thesis using d[of n] by (subst show_nat.simps) simp
  next
    case False
    then show ?thesis using 1 d[of "n mod 10"] by (subst show_nat.simps) simp
  qed
qed

lemma show_nat_53: "show_nat 53 = ''53''"
  by (simp add: show_nat.simps)

lemma lines_from_line:
  "nl \<notin> set s \<Longrightarrow> lines_from cur (s @ nl # rest) = (cur @ s) # lines_from [] rest"
  by (induction s arbitrary: cur) auto

lemma write_fold:
  "k \<le> length P \<Longrightarrow>
   fold (\<lambda>idx f. case P ! idx of (p0, p1, p2) \<Rightarrow> f @ fmt p0 @ '' '' @ fmt p1 @ '' '' @ fmt p2 @ [nl])
        [0..<k] hdr
   = hdr @ concat (map (\<lambda>(p0, p1, p2). fmt p0 @ '' '' @ fmt p1 @ '' '' @ fmt p2 @ [nl]) (take k P))"
proof (induction k)
  case 0 show ?case by simp
next
  case (Suc k)
  then have k: "k < length P" by simp
  show ?case using Suc k by (simp add: take_Suc_conv_app_nth split: prod.splits)
qed

lemma lines_from_rows:
  "(\<forall>c. nl \<notin> set (fmt c)) \<Longrightarrow>
   lines_from [] (concat (map (\<lambda>(p0, p1, p2). fmt p0 @ '' '' @ fmt p1 @ '' '' @ fmt p2 @ [nl]) P))
   = map (\<lambda>(p0, p1, p2). fmt p0 @ '' '' @ fmt p1 @ '' '' @ fmt p2) P"
proof (induction P)
  case Nil show ?case by simp
next
  case (Cons p P)
  obtain x y z where p: "p = (x, y, z)" by (cases p) auto
  have "nl \<notin> set (fmt x @ '' '' @ fmt y @ '' '' @ fmt z)" using Cons.prems by (simp add: nl_def)
  from lines_from_line[OF this, of "[]"] show ?case using Cons p by simp
qed

text \<open>
  Claim C3. The written table has the line \<open>point\<close> first, the decimal point count
  second, and then one line per point, in the order of the point set, holding the three
  coordinates separated by single spaces (provided the formatting of a float never
  produces a newline).
\<close>

theorem write_point_table_lines:
  assumes "\<forall>c. nl \<notin> set (fmt c)"
  shows "lines_of (write_point_table fmt P) =
     ''point'' # show_nat (length P) #
       map (\<lambda>(p0, p1, p2). fmt p0 @ '' '' @ fmt p1 @ '' '' @ fmt p2) P"
proof -
  let ?row = "\<lambda>(p0, p1, p2). fmt p0 @ '' '' @ fmt p1 @ '' '' @ fmt p2 @ [nl]"
  have w: "write_point_table fmt P =
      ''point'' @ nl # show_nat (length P) @ nl # concat (map ?row P)"
    using write_fold [of "length P" P fmt] by (simp add: write_point_table_def GetNumberOfPoints_def)
  have 1: "nl \<notin> set ''point''" by (simp add: nl_def)
  show ?thesis
    unfolding lines_of_def w
    using lines_from_line [OF 1, of "[]"] lines_from_line [OF show_nat_no_nl, of "[]" "length P"]
      lines_from_rows [OF assms, of P]
    by simp
qed

theorem write_point_table_lines_witness:
  "lines_of (write_point_table (\<lambda>r. if r = 0 then ''0.0'' else ''1.5'') [(0, 1.5, 0), (1.5, 0, 0)])
     = [''point'', ''2'', ''0.0 1.5 0.0'', ''1.5 0.0 0.0'']"
  using write_point_table_lines [of "\<lambda>r. if r = 0 then ''0.0'' else ''1.5''" "[(0, 1.5, 0), (1.5, 0, 0)]"]
  by (simp add: nl_def show_nat.simps)


section \<open>The linear stage on the demonstration point\<close>

lemma Offset_identity: "Offset \<lparr>Matrix = identity_matrix, Center = c, Translation = t\<rparr> = t"
  by (cases c; cases t) (simp add: Offset_def identity_matrix_def mat_vec_def vec_add_def vec_sub_def)

lemma mat_vec_identity: "mat_vec identity_matrix p = p"
  by (cases p) (simp add: identity_matrix_def mat_vec_def)

lemma initial_transform_demo_value:
  "apply_init_transform
     (TransformPoint \<lparr>Matrix = identity_matrix, Center = c,
                      Translation = (-12.3259, -2.6141, -8.1635)\<rparr>)
     [(8.46357, 9.5616, 5.61258)] = [(-3.86233, 6.9475, -2.55092)]"
  by (simp add: apply_init_transform_def GetNumberOfPoints_def InsertElement_def
      TransformPoint_def Offset_identity mat_vec_identity vec_add_def)

text \<open>
  Claim C2. With an identity rotation (about any centre) and translation
  (-12.3259, -2.6141, -8.1635), the initial transform sends the input point
  (8.46357, 9.5616, 5.61258) to a point within 1e-3, in each coordinate, of
  (-3.86233, 6.9475, -2.55092). Coordinates are real numbers here; in exact arithmetic
  the result is that point itself.
\<close>

theorem initial_transform_demo_point:
  "\<exists>x y z.
     apply_init_transform
       (TransformPoint \<lparr>Matrix = identity_matrix, Center = c,
                        Translation = (-12.3259, -2.6141, -8.1635)\<rparr>)
       [(8.46357, 9.5616, 5.61258)] = [(x, y, z)] \<and>
     \<bar>x - (-3.86233)\<bar> \<le> 1 / 1000 \<and> \<bar>y - 6.9475\<bar> \<le> 1 / 1000 \<and>
     \<bar>z - (-2.55092)\<bar> \<le> 1 / 1000"
proof (intro exI conjI)
  show "apply_init_transform
       (TransformPoint \<lparr>Matrix = identity_matrix, Center = c,
                        Translation = (-12.3259, -2.6141, -8.1635)\<rparr>)
       [(8.46357, 9.5616, 5.61258)] = [(-3.86233, 6.9475, -2.55092)]"
    by (rule initial_transform_demo_value)
qed simp_all

section \<open>The parameter chain\<close>

lemma read_stages_ok:
  "\<forall>fn \<in> set fns. files fn \<noteq> None \<Longrightarrow>
   read_stages files fns (toplevel, param) =
     Inr (toplevel\<lparr>parameter_maps := parameter_maps toplevel @ map (\<lambda>fn. the (files fn)) fns\<rparr>,
          if fns = [] then param else param\<lparr>parameter_maps := [the (files (last fns))]\<rparr>)"
proof (induction fns arbitrary: toplevel param)
  case Nil
  show ?case by simp
next
  case (Cons fn fns)
  then obtain m where m: "files fn = Some m" by auto
  have "read_stages files (fn # fns) (toplevel, param) =
        read_stages files fns (AddParameterMap m toplevel, param\<lparr>parameter_maps := [m]\<rparr>)"
    by (simp add: m ReadParameterFile_def GetParameterMap_def)
  then show ?case using Cons m by (simp add: AddParameterMap_def)
qed

text \<open>
  Claim C5. For every list of three stage parameter files that can be read, the loop
  returns a parameter chain of three maps whose entry k is the map read from file k.
\<close>

theorem parameter_chain_order:
  assumes "length filenames = 3" and "\<forall>fn \<in> set filenames. files fn \<noteq> None"
  shows "\<exists>chain. build_parameter_chain files filenames = Inr chain \<and>
           length (parameter_maps chain) = 3 \<and>
           (\<forall>k < 3. files (filenames ! k) = Some (parameter_maps chain ! k))"
  using assms read_stages_ok [OF assms(2), of ParameterObject_New ParameterObject_New]
  by (auto simp: build_parameter_chain_def ParameterObject_New_def)

theorem parameter_chain_order_witness:
  "\<exists>chain. build_parameter_chain [''t0'' \<mapsto> (10::nat), ''t1'' \<mapsto> 11, ''t2'' \<mapsto> 12] [''t0'', ''t1'', ''t2'']
       = Inr chain \<and> parameter_maps chain = [10, 11, 12]"
  using parameter_chain_order [of "[''t0'', ''t1'', ''t2'']" "[''t0'' \<mapsto> (10::nat), ''t1'' \<mapsto> 11, ''t2'' \<mapsto> 12]"]
  by (simp add: build_parameter_chain_def ParameterObject_New_def ReadParameterFile_def
        GetParameterMap_def AddParameterMap_def)

lemma ELASTIX_TRANSFORM_FILENAMES_value: "ELASTIX_TRANSFORM_FILENAMES =
  [''../data/demo_registration_results_631680/elastix-transform0.txt'',
   ''../data/demo_registration_results_631680/elastix-transform1.txt'',
   ''../data/demo_registration_results_631680/elastix-transform2.txt'']"
  by (simp add: ELASTIX_TRANSFORM_FILENAMES_def N_ELASTIX_STAGES_def TRANSFORMS_PATH_def
      show_nat.simps upt_rec)

section \<open>The whole transform stack on a point set\<close>

lemma apply_init_transform_map: "apply_init_transform T P = map T P"
  using insert_by_index [of "length P" P origin_point T]
  by (simp add: apply_init_transform_def GetNumberOfPoints_def)

lemma digit_value_digit: "k < 10 \<Longrightarrow> digit_value (''0123456789'' ! k) = Some k"
proof -
  assume "k < 10"
  then have "k \<in> {0, 1, 2, 3, 4, 5, 6, 7, 8, 9}" by auto
  then show ?thesis by (auto simp: digit_value_def)
qed

lemma read_nat_from_snoc:
  "read_nat_from acc (s @ [c]) =
     (case read_nat_from acc s of
        None \<Rightarrow> None
      | Some a \<Rightarrow> (case digit_value c of None \<Rightarrow> None | Some d \<Rightarrow> Some (10 * a + d)))"
  by (induction s arbitrary: acc) (auto split: option.splits)

lemma read_nat_from_show_nat: "read_nat_from 0 (show_nat n) = Some n"
proof (induction n rule: show_nat.induct)
  case (1 n)
  show ?case
  proof (cases "n < 10")
    case True
    then show ?thesis using digit_value_digit [of n] by (subst show_nat.simps) simp
  next
    case False
    then have "read_nat_from 0 (show_nat (n div 10)) = Some (n div 10)" by (rule 1)
    moreover have "digit_value (''0123456789'' ! (n mod 10)) = Some (n mod 10)"
      by (rule digit_value_digit) simp
    ultimately show ?thesis using False
      by (subst show_nat.simps) (simp add: read_nat_from_snoc)
  qed
qed

lemma show_nat_nonempty: "show_nat n \<noteq> []"
  by (subst show_nat.simps) simp

lemma read_nat_show_nat: "read_nat (show_nat n) = Some n"
  by (simp add: read_nat_def show_nat_nonempty read_nat_from_show_nat)

lemma fields_from_last: "CHR '' '' \<notin> set s \<Longrightarrow> fields_from cur s = [cur @ s]"
  by (induction s arbitrary: cur) auto

lemma fields_from_field:
  "CHR '' '' \<notin> set s \<Longrightarrow> fields_from cur (s @ CHR '' '' # rest) = (cur @ s) # fields_from [] rest"
  by (induction s arbitrary: cur) auto

lemma parse_point_line:
  assumes "survives_writing fmt parse x" "survives_writing fmt parse y" "survives_writing fmt parse z"
  shows "parse_point parse (fmt x @ '' '' @ fmt y @ '' '' @ fmt z) = Inr (x, y, z)"
proof -
  have "fields_from [] (fmt x @ CHR '' '' # fmt y @ CHR '' '' # fmt z) = [fmt x, fmt y, fmt z]"
    using assms by (simp add: survives_writing_def fields_from_field fields_from_last)
  then show ?thesis using assms by (simp add: parse_point_def survives_writing_def)
qed

lemma parse_points_lines:
  assumes "\<forall>p \<in> set Q. \<forall>x \<in> set (coordinates p). survives_writing fmt parse x"
  shows "parse_points parse (map (\<lambda>(p0, p1, p2). fmt p0 @ '' '' @ fmt p1 @ '' '' @ fmt p2) Q) = Inr Q"
  using assms
proof (induction Q)
  case Nil
  show ?case by simp
next
  case (Cons p Q)
  obtain x y z where p: "p = (x, y, z)" by (cases p) auto
  have "survives_writing fmt parse x" "survives_writing fmt parse y" "survives_writing fmt parse z"
    using Cons.prems p by (simp_all add: coordinates_def)
  from parse_point_line [OF this] Cons show ?case by (simp add: p)
qed

lemma lines_from_rows_on:
  "\<forall>p \<in> set Q. \<forall>x \<in> set (coordinates p). nl \<notin> set (fmt x) \<Longrightarrow>
   lines_from [] (concat (map (\<lambda>(p0, p1, p2). fmt p0 @ '' '' @ fmt p1 @ '' '' @ fmt p2 @ [nl]) Q))
   = map (\<lambda>(p0, p1, p2). fmt p0 @ '' '' @ fmt p1 @ '' '' @ fmt p2) Q"
proof (induction Q)
  case Nil
  show ?case by simp
next
  case (Cons p Q)
  obtain x y z where p: "p = (x, y, z)" by (cases p) auto
  have "nl \<notin> set (fmt x @ '' '' @ fmt y @ '' '' @ fmt z)"
    using Cons.prems p by (simp add: nl_def coordinates_def)
  from lines_from_line [OF this, of "[]"] show ?case using Cons p by simp
qed

lemma lines_of_table_on:
  assumes "\<forall>p \<in> set Q. \<forall>x \<in> set (coordinates p). nl \<notin> set (fmt x)"
  shows "lines_of (write_point_table fmt Q) =
     ''point'' # show_nat (length Q) #
       map (\<lambda>(p0, p1, p2). fmt p0 @ '' '' @ fmt p1 @ '' '' @ fmt p2) Q"
proof -
  let ?row = "\<lambda>(p0, p1, p2). fmt p0 @ '' '' @ fmt p1 @ '' '' @ fmt p2 @ [nl]"
  have w: "write_point_table fmt Q =
      ''point'' @ nl # show_nat (length Q) @ nl # concat (map ?row Q)"
    using write_fold [of "length Q" Q fmt] by (simp add: write_point_table_def GetNumberOfPoints_def)
  have 1: "nl \<notin> set ''point''" by (simp add: nl_def)
  show ?thesis
    unfolding lines_of_def w
    using lines_from_line [OF 1, of "[]"] lines_from_line [OF show_nat_no_nl, of "[]" "length Q"]
      lines_from_rows_on [OF assms]
    by simp
qed

lemma read_point_file_table:
  assumes "\<forall>p \<in> set Q. \<forall>x \<in> set (coordinates p). survives_writing fmt parse x"
  shows "read_point_file parse (write_point_table fmt Q) = Inr Q"
proof -
  have "\<forall>p \<in> set Q. \<forall>x \<in> set (coordinates p). nl \<notin> set (fmt x)"
    using assms by (simp add: survives_writing_def)
  from lines_of_table_on [OF this] parse_points_lines [OF assms] show ?thesis
    by (simp add: read_point_file_def read_nat_show_nat)
qed

lemma apply_transform_stack_rows:
  assumes "\<forall>p \<in> set P. \<forall>x \<in> set (coordinates (T p)). survives_writing fmt parse x"
  shows "apply_transform_stack T stage chain fmt parse P =
     Inr (map (\<lambda>p. \<lparr>InputPoint = T p, OutputPoint = fold stage (parameter_maps chain) (T p)\<rparr>) P)"
proof -
  have "\<forall>q \<in> set (map T P). \<forall>x \<in> set (coordinates q). survives_writing fmt parse x"
    using assms by simp
  from read_point_file_table [OF this] show ?thesis
    by (simp add: apply_transform_stack_def apply_init_transform_map transformix_pointset_def
        comp_def)
qed

text \<open>
  Claim C4. For every point set P, every initial transform and every parameter chain,
  applying the stack (initial transform loop, written point table, transformix on that
  table) returns as many result rows as P has points, and row i belongs to point i: its
  input point is the image of point i under the initial transform and its output point is
  that image taken through the stages of the chain in order. The coordinates written to
  the table are assumed to survive writing.
\<close>

theorem apply_transform_stack_pointwise:
  assumes "\<forall>p \<in> set P. \<forall>x \<in> set (coordinates (T p)). survives_writing fmt parse x"
  shows "\<exists>rows. apply_transform_stack T stage chain fmt parse P = Inr rows \<and>
           length rows = length P \<and>
           (\<forall>i < length P.
              InputPoint (rows ! i) = T (P ! i) \<and>
              OutputPoint (rows ! i) = fold stage (parameter_maps chain) (T (P ! i)))"
  using apply_transform_stack_rows [OF assms, of stage chain] by simp

theorem apply_transform_stack_pointwise_witness:
  "apply_transform_stack (\<lambda>(x, y, z). (y, x, z)) (\<lambda>m (x, y, z). (x + m, y, z))
       \<lparr>parameter_maps = [1, 2, 3]\<rparr>
       (\<lambda>r. if r = 0 then ''0.0'' else ''1.5'')
       (\<lambda>s. if s = ''0.0'' then Some 0 else if s = ''1.5'' then Some 1.5 else None)
       [(0, 1.5, 0), (1.5, 0, 0)]
   = Inr [\<lparr>InputPoint = (1.5, 0, 0), OutputPoint = (7.5, 0, 0)\<rparr>,
          \<lparr>InputPoint = (0, 1.5, 0), OutputPoint = (6, 1.5, 0)\<rparr>]"
proof -
  let ?T = "\<lambda>(x :: real, y :: real, z :: real). (y, x, z)"
  let ?stage = "\<lambda>(m :: real) (x :: real, y :: real, z :: real). (x + m, y, z)"
  let ?fmt = "\<lambda>r :: real. if r = 0 then ''0.0'' else ''1.5''"
  let ?parse = "\<lambda>s. if s = ''0.0'' then Some (0 :: real) else if s = ''1.5'' then Some 1.5 else None"
  let ?P = "[(0, 1.5, 0), (1.5, 0, 0)] :: point list"
  have h: "\<forall>p \<in> set ?P. \<forall>x \<in> set (coordinates (?T p)). survives_writing ?fmt ?parse x"
    by (simp add: coordinates_def survives_writing_def nl_def)
  from apply_transform_stack_pointwise [OF h, of ?stage "\<lparr>parameter_maps = [1, 2, 3]\<rparr>"]
  obtain rows where r: "apply_transform_stack ?T ?stage \<lparr>parameter_maps = [1, 2, 3]\<rparr> ?fmt ?parse ?P = Inr rows"
    "length rows = 2"
    "\<forall>i < 2. InputPoint (rows ! i) = ?T (?P ! i) \<and>
        OutputPoint (rows ! i) = fold ?stage [1, 2, 3] (?T (?P ! i))"
    by auto
  from r(3) have "InputPoint (rows ! 0) = (1.5, 0, 0)" "OutputPoint (rows ! 0) = (7.5, 0, 0)"
    "InputPoint (rows ! 1) = (0, 1.5, 0)" "OutputPoint (rows ! 1) = (6, 1.5, 0)"
    by simp_all
  moreover from r(2) obtain a b where "rows = [a, b]"
    by (cases rows; cases "tl rows") auto
  ultimately have "rows = [\<lparr>InputPoint = (1.5, 0, 0), OutputPoint = (7.5, 0, 0)\<rparr>,
          \<lparr>InputPoint = (0, 1.5, 0), OutputPoint = (6, 1.5, 0)\<rparr>]"
    by simp
  with r(1) show ?thesis by simp
qed

section \<open>The fields shown from a transformix result row\<close>

text \<open>
  Claim C1 (as amended). The two parts shown from a result row are its elements 11 to 17 and
  27 to 34: for a row laid out with 11 elements before the input-point group of 7, and 9
  elements between it and the output-point group of 8 (the layout of transformix for
  three-dimensional points, that group taken with its closing separator), exactly those
  two groups are returned. The extraction is by position, not by label.
\<close>

theorem result_point_fields_by_position:
  "length pre = 11 \<Longrightarrow> length gin = 7 \<Longrightarrow> length mid = 9 \<Longrightarrow> length gout = 8 \<Longrightarrow>
   result_point_fields (pre @ gin @ mid @ gout @ rest) = (gin, gout)"
  by (simp add: result_point_fields_def py_slice_def)

theorem result_point_fields_by_position_witness:
  "result_point_fields
     ([''Point'', ''0'', '';'', ''InputIndex'', ''='', ''['', ''1'', ''2'', ''3'', '']'', '';''] @
      [''InputPoint'', ''='', ''['', ''1.0'', ''2.0'', ''3.0'', '']''] @
      ['';'', ''OutputIndexFixed'', ''='', ''['', ''4'', ''5'', ''6'', '']'', '';''] @
      [''OutputPoint'', ''='', ''['', ''4.0'', ''5.0'', ''6.0'', '']'', '';''] @
      [''Deformation'', ''='', ''['', ''3.0'', ''3.0'', ''3.0'', '']''])
   = ([''InputPoint'', ''='', ''['', ''1.0'', ''2.0'', ''3.0'', '']''],
      [''OutputPoint'', ''='', ''['', ''4.0'', ''5.0'', ''6.0'', '']'', '';''])"
  using result_point_fields_by_position
    [of "[''Point'', ''0'', '';'', ''InputIndex'', ''='', ''['', ''1'', ''2'', ''3'', '']'', '';'']"
        "[''InputPoint'', ''='', ''['', ''1.0'', ''2.0'', ''3.0'', '']'']"
        "['';'', ''OutputIndexFixed'', ''='', ''['', ''4'', ''5'', ''6'', '']'', '';'']"
        "[''OutputPoint'', ''='', ''['', ''4.0'', ''5.0'', ''6.0'', '']'', '';'']"
        "[''Deformation'', ''='', ''['', ''3.0'', ''3.0'', ''3.0'', '']'']"]
  by simp

text \<open>
  A row that holds both labelled groups but no index groups: looking for the labels finds
  both triples, while the code returns the output-point group as its first part and
  nothing as its second.
\<close>

theorem result_point_fields_counterexample:
  "spec_parse_result_line
     [''Point'', ''0'', '';'', ''InputPoint'', ''='', ''['', ''1.0'', ''2.0'', ''3.0'', '']'', '';'',
      ''OutputPoint'', ''='', ''['', ''4.0'', ''5.0'', ''6.0'', '']'']
     = Inr ((''1.0'', ''2.0'', ''3.0''), (''4.0'', ''5.0'', ''6.0'')) \<and>
   result_point_fields
     [''Point'', ''0'', '';'', ''InputPoint'', ''='', ''['', ''1.0'', ''2.0'', ''3.0'', '']'', '';'',
      ''OutputPoint'', ''='', ''['', ''4.0'', ''5.0'', ''6.0'', '']'']
     = ([''OutputPoint'', ''='', ''['', ''4.0'', ''5.0'', ''6.0'', '']''], [])"
  by (simp add: spec_parse_result_line_def result_point_fields_def py_slice_def)


section \<open>The cached store\<close>

lemma accommodate_value_fits:
  "value_size \<le> mx \<Longrightarrow> cur = cached_bytes bsz vs \<Longrightarrow>
   \<exists>n. accommodate_value bsz mx value_size vs cur
         = (None, drop n vs, cached_bytes bsz (drop n vs)) \<and>
       cached_bytes bsz (drop n vs) + int value_size \<le> int mx"
proof (induction vs arbitrary: cur)
  case Nil
  then show ?case by (simp add: cached_bytes_def)
next
  case (Cons kv vs)
  obtain k v where kv: "kv = (k, v)" by (cases kv) auto
  show ?case
  proof (cases "cur + int value_size > int mx")
    case True
    have "cur - int (bsz v) = cached_bytes bsz vs"
      using Cons.prems(2) kv by (simp add: cached_bytes_def)
    from Cons.IH [OF Cons.prems(1) this] obtain n where
      n: "accommodate_value bsz mx value_size vs (cur - int (bsz v))
            = (None, drop n vs, cached_bytes bsz (drop n vs))"
         "cached_bytes bsz (drop n vs) + int value_size \<le> int mx" by blast
    have "accommodate_value bsz mx value_size (kv # vs) cur
            = (None, drop (Suc n) (kv # vs), cached_bytes bsz (drop (Suc n) (kv # vs)))"
      using True n(1) kv by simp
    moreover have "cached_bytes bsz (drop (Suc n) (kv # vs)) + int value_size \<le> int mx"
      using n(2) by simp
    ultimately show ?thesis by blast
  next
    case False
    then have "accommodate_value bsz mx value_size (kv # vs) cur
            = (None, drop 0 (kv # vs), cached_bytes bsz (drop 0 (kv # vs)))"
      using kv Cons.prems(2) by simp
    moreover have "cached_bytes bsz (drop 0 (kv # vs)) + int value_size \<le> int mx"
      using False Cons.prems(2) by simp
    ultimately show ?thesis by blast
  qed
qed

lemma cached_bytes_append:
  "cached_bytes bsz (vs @ ws) = cached_bytes bsz vs + cached_bytes bsz ws"
  by (simp add: cached_bytes_def)

lemma cached_bytes_move:
  "distinct (map fst vs) \<Longrightarrow> map_of vs key = Some val \<Longrightarrow>
   cached_bytes bsz (filter (\<lambda>kv. fst kv \<noteq> key) vs) + int (bsz val) = cached_bytes bsz vs"
proof (induction vs)
  case Nil
  then show ?case by simp
next
  case (Cons kv vs)
  obtain k v where kv: "kv = (k, v)" by (cases kv) auto
  show ?case
  proof (cases "k = key")
    case True
    with Cons.prems kv have v: "v = val" and notin: "key \<notin> fst ` set vs" by auto
    from notin have "filter (\<lambda>kv. fst kv \<noteq> key) vs = vs"
      by (auto simp: filter_id_conv)
    then show ?thesis using True kv v by (simp add: cached_bytes_def)
  next
    case False
    with Cons kv show ?thesis by (simp add: cached_bytes_def)
  qed
qed

lemma cache_value_inv:
  assumes "cache_inv bsz c" and "map_of (values_cache c) key = None"
  shows "\<exists>c'. cache_value bsz key val c = (None, c') \<and> cache_inv bsz c' \<and>
           max_size c' = max_size c"
proof (cases "bsz val \<le> max_size c")
  case False
  then show ?thesis using assms by (simp add: cache_value_def)
next
  case True
  have cur: "current_size c = cached_bytes bsz (values_cache c)"
    using assms(1) by (simp add: cache_inv_def)
  from accommodate_value_fits [OF True cur] obtain n where
    n: "accommodate_value bsz (max_size c) (bsz val) (values_cache c) (current_size c)
          = (None, drop n (values_cache c), cached_bytes bsz (drop n (values_cache c)))"
       "cached_bytes bsz (drop n (values_cache c)) + int (bsz val) \<le> int (max_size c)"
    by blast
  have notin: "key \<notin> fst ` set (drop n (values_cache c))"
    using assms(2) by (metis (no_types, lifting) image_iff in_set_dropD map_of_eq_None_iff)
  have dist: "distinct (map fst (drop n (values_cache c)))"
    using assms(1) by (simp add: cache_inv_def distinct_drop drop_map [symmetric])
  have "cache_value bsz key val c =
          (None, c\<lparr>current_size := cached_bytes bsz (drop n (values_cache c)) + int (bsz val),
                    values_cache := drop n (values_cache c) @ [(key, val)]\<rparr>)"
    using True n(1) notin by (simp add: cache_value_def od_set_def)
  moreover have "cache_inv bsz
      (c\<lparr>current_size := cached_bytes bsz (drop n (values_cache c)) + int (bsz val),
         values_cache := drop n (values_cache c) @ [(key, val)]\<rparr>)"
    using n(2) notin dist by (simp add: cache_inv_def cached_bytes_append) (simp add: cached_bytes_def)
  ultimately show ?thesis by simp
qed

lemma getitem_hit:
  "map_of (values_cache c) key = Some val \<Longrightarrow>
   LRUStoreCache_getitem bsz store c key =
     (Inr val, c\<lparr>values_cache := move_to_end key val (values_cache c), hits := hits c + 1\<rparr>)"
  by (simp add: LRUStoreCache_getitem_def)

lemma getitem_absent:
  "map_of (values_cache c) key = None \<Longrightarrow> store key = None \<Longrightarrow>
   LRUStoreCache_getitem bsz store c key = (Inl KeyError, c)"
  by (simp add: LRUStoreCache_getitem_def)

lemma getitem_miss:
  "map_of (values_cache c) key = None \<Longrightarrow> store key = Some val \<Longrightarrow>
   cache_value bsz key val (c\<lparr>misses := misses c + 1\<rparr>) = (None, c') \<Longrightarrow>
   LRUStoreCache_getitem bsz store c key = (Inr val, c')"
  by (simp add: LRUStoreCache_getitem_def)

lemma getitem_inv:
  assumes "cache_inv bsz c"
  shows "cache_inv bsz (snd (LRUStoreCache_getitem bsz store c key)) \<and>
         max_size (snd (LRUStoreCache_getitem bsz store c key)) = max_size c"
proof (cases "map_of (values_cache c) key")
  case (Some val)
  have d: "distinct (map fst (values_cache c))"
    and cur: "current_size c = cached_bytes bsz (values_cache c)"
    and le: "current_size c \<le> int (max_size c)"
    using assms by (simp_all add: cache_inv_def)
  have "cached_bytes bsz (move_to_end key val (values_cache c))
      = cached_bytes bsz (filter (\<lambda>kv. fst kv \<noteq> key) (values_cache c)) + int (bsz val)"
    unfolding move_to_end_def cached_bytes_append by (simp add: cached_bytes_def)
  also have "\<dots> = cached_bytes bsz (values_cache c)"
    by (rule cached_bytes_move [OF d Some])
  finally have b: "cached_bytes bsz (move_to_end key val (values_cache c))
      = cached_bytes bsz (values_cache c)" .
  have "key \<notin> fst ` set (filter (\<lambda>kv. fst kv \<noteq> key) (values_cache c))" by auto
  then have d': "distinct (map fst (move_to_end key val (values_cache c)))"
    using d unfolding move_to_end_def by (simp add: distinct_map_filter)
  show ?thesis
    unfolding getitem_hit [OF Some] using b d' cur le by (simp add: cache_inv_def)
next
  case None
  show ?thesis
  proof (cases "store key")
    case N: None
    show ?thesis unfolding getitem_absent [where store = store, OF None N] using assms by simp
  next
    case (Some val)
    have "cache_inv bsz (c\<lparr>misses := misses c + 1\<rparr>)"
      using assms by (simp add: cache_inv_def)
    moreover have "map_of (values_cache (c\<lparr>misses := misses c + 1\<rparr>)) key = None"
      using None by simp
    ultimately have "\<exists>c'. cache_value bsz key val (c\<lparr>misses := misses c + 1\<rparr>) = (None, c') \<and>
        cache_inv bsz c' \<and> max_size c' = max_size (c\<lparr>misses := misses c + 1\<rparr>)"
      by (rule cache_value_inv)
    then obtain c' where
      c': "cache_value bsz key val (c\<lparr>misses := misses c + 1\<rparr>) = (None, c')"
      "cache_inv bsz c'" "max_size c' = max_size (c\<lparr>misses := misses c + 1\<rparr>)"
      by (elim exE conjE)
    show ?thesis unfolding getitem_miss [where store = store, OF None Some c'(1)] using c'(2,3) by simp
  qed
qed

lemma read_keys_inv:
  "cache_inv bsz c \<Longrightarrow>
   cache_inv bsz (read_keys bsz store c keys) \<and> max_size (read_keys bsz store c keys) = max_size c"
proof (induction keys arbitrary: c)
  case Nil
  then show ?case by simp
next
  case (Cons key keys)
  from getitem_inv [OF Cons.prems, of store key] Cons.IH show ?case by simp
qed

text \<open>
  Claim C7 (as amended). The cache is bounded in bytes, not in entries, and it is not
  append-only: after any run of reads that starts with the new cache, the byte sizes of
  the cached values add up to \<open>current_size\<close>, which is at most \<open>max_size\<close>, and every
  key is cached at most once.
\<close>

theorem lru_cache_byte_bound:
  "current_size (read_keys buffer_size store (LRUStoreCache_new mx) keys)
     = (\<Sum>kv\<leftarrow>values_cache (read_keys buffer_size store (LRUStoreCache_new mx) keys).
          int (buffer_size (snd kv))) \<and>
   current_size (read_keys buffer_size store (LRUStoreCache_new mx) keys) \<le> int mx \<and>
   distinct (map fst (values_cache (read_keys buffer_size store (LRUStoreCache_new mx) keys)))"
proof -
  have "cache_inv buffer_size (LRUStoreCache_new mx :: 'a LRUStoreCache)"
    by (simp add: cache_inv_def LRUStoreCache_new_def cached_bytes_def)
  from read_keys_inv [OF this, of store keys] show ?thesis
    by (simp add: cache_inv_def cached_bytes_def LRUStoreCache_new_def)
qed

text \<open>
  With \<open>max_size = 2 ^ 28\<close> as in the notebook and two stored values of \<open>2 ^ 27 + 1\<close>
  bytes each: reading the first caches it, reading the second evicts it.
\<close>

theorem lru_cache_counterexample:
  "map fst (values_cache (read_keys (\<lambda>n. n) [''a'' \<mapsto> 2 ^ 27 + 1, ''b'' \<mapsto> 2 ^ 27 + 1]
       (LRUStoreCache_new (2 ^ 28)) [''a''])) = [''a''] \<and>
   map fst (values_cache (read_keys (\<lambda>n. n) [''a'' \<mapsto> 2 ^ 27 + 1, ''b'' \<mapsto> 2 ^ 27 + 1]
       (LRUStoreCache_new (2 ^ 28)) [''a'', ''b''])) = [''b'']"
  by (simp add: LRUStoreCache_getitem_def cache_value_def LRUStoreCache_new_def od_set_def)















section \<open>Orientation reconciliation\<close>

lemma mat_mul_entries:
  "mat_mul ((a, b, c), (d, e, f), (g, h, i)) ((a', b', c'), (d', e', f'), (g', h', i')) =
     ((a * a' + b * d' + c * g', a * b' + b * e' + c * h', a * c' + b * f' + c * i'),
      (d * a' + e * d' + f * g', d * b' + e * e' + f * h', d * c' + e * f' + f * i'),
      (g * a' + h * d' + i * g', g * b' + h * e' + i * h', g * c' + h * f' + i * i'))"
  by (simp add: mat_mul_def transpose3_def mat_vec_def)

lemma mat_mul_assoc: "mat_mul (mat_mul x y) z = mat_mul x (mat_mul y z)"
proof -
  obtain a b c d e f g h i where x: "x = ((a, b, c), (d, e, f), (g, h, i))"
    by (metis prod_cases3)
  obtain a' b' c' d' e' f' g' h' i' where y: "y = ((a', b', c'), (d', e', f'), (g', h', i'))"
    by (metis prod_cases3)
  obtain a2 b2 c2 d2 e2 f2 g2 h2 i2 where z: "z = ((a2, b2, c2), (d2, e2, f2), (g2, h2, i2))"
    by (metis prod_cases3)
  show ?thesis unfolding x y z mat_mul_entries by (simp add: algebra_simps)
qed

lemma mat_mul_identity_left: "mat_mul identity_matrix x = x"
proof -
  obtain a b c d e f g h i where x: "x = ((a, b, c), (d, e, f), (g, h, i))"
    by (metis prod_cases3)
  show ?thesis unfolding x identity_matrix_def mat_mul_entries by simp
qed

lemma basis_matrix_orthogonal:
  assumes "valid_orientation code"
  shows "mat_mul (basis_matrix code) (transpose3 (basis_matrix code)) = identity_matrix"
    and "mat_mul (transpose3 (basis_matrix code)) (basis_matrix code) = identity_matrix"
proof -
  obtain p q r where code: "code = (p, q, r)" by (metis prod_cases3)
  show "mat_mul (basis_matrix code) (transpose3 (basis_matrix code)) = identity_matrix"
    using assms unfolding code
    by (cases p; cases q; cases r)
       (simp_all add: valid_orientation_def basis_matrix_def transpose3_def mat_mul_entries
          identity_matrix_def)
  show "mat_mul (transpose3 (basis_matrix code)) (basis_matrix code) = identity_matrix"
    using assms unfolding code
    by (cases p; cases q; cases r)
       (simp_all add: valid_orientation_def basis_matrix_def transpose3_def mat_mul_entries
          identity_matrix_def)
qed

lemma signed_permutation_inverse:
  assumes "valid_orientation A" and "valid_orientation B"
  shows "mat_mul (signed_permutation B A) (mat_mul (signed_permutation A B) D) = D"
proof -
  let ?a = "basis_matrix A" and ?b = "basis_matrix B"
  have "mat_mul (signed_permutation B A) (mat_mul (signed_permutation A B) D)
      = mat_mul ?a (mat_mul (mat_mul (transpose3 ?b) ?b) (mat_mul (transpose3 ?a) D))"
    by (simp add: signed_permutation_def mat_mul_assoc)
  also have "\<dots> = mat_mul ?a (mat_mul (transpose3 ?a) D)"
    by (simp add: basis_matrix_orthogonal(2) [OF assms(2)] mat_mul_identity_left)
  also have "\<dots> = mat_mul (mat_mul ?a (transpose3 ?a)) D"
    by (simp add: mat_mul_assoc)
  also have "\<dots> = D"
    by (simp add: basis_matrix_orthogonal(1) [OF assms(1)] mat_mul_identity_left)
  finally show ?thesis .
qed

text \<open>
  Claim C6. For every pair of orientation codes A and B, reconciling a direction matrix
  from A to B and the result from B to A succeeds and gives back the original matrix,
  entry for entry (so within every tolerance).
\<close>

theorem reconcile_round_trip:
  assumes "valid_orientation A" and "valid_orientation B"
  shows "\<exists>D'. reconcile_direction A B D = Inr D' \<and> reconcile_direction B A D' = Inr D"
  using assms signed_permutation_inverse [OF assms, of D]
  by (simp add: reconcile_direction_def)

theorem reconcile_round_trip_witness:
  "reconcile_direction RAI LPS identity_matrix = Inr ((-1, 0, 0), (0, -1, 0), (0, 0, -1)) \<and>
   reconcile_direction LPS RAI ((-1, 0, 0), (0, -1, 0), (0, 0, -1)) = Inr identity_matrix"
proof -
  have v: "valid_orientation RAI" "valid_orientation LPS"
    by (simp_all add: valid_orientation_def RAI_def LPS_def)
  have 1: "reconcile_direction RAI LPS identity_matrix = Inr ((-1, 0, 0), (0, -1, 0), (0, 0, -1))"
    by (simp add: reconcile_direction_def valid_orientation_def signed_permutation_def basis_matrix_def RAI_def LPS_def
        transpose3_def mat_mul_entries identity_matrix_def)
  from reconcile_round_trip [OF v, of identity_matrix] 1 show ?thesis by simp
qed

section \<open>The image written in image mode\<close>

lemma reorient_image_frame:
  "reorient_image orient img = Inr out \<Longrightarrow>
   PixelContainer out = PixelContainer img \<and> BufferedRegion out = BufferedRegion img"
  by (auto simp: reorient_image_def SetSpacing_def CopyInformation_def
      split: if_splits sum.splits)

lemma reorient_image_total:
  assumes "length (LargestPossibleRegion img) = 3"
    and "orient RAI LPS
           (information_of (img\<lparr>Spacing := [0.028800000000000003, 0.028800000000000003, 0.032]\<rparr>))
         = Inr info"
  shows "\<exists>out. reorient_image orient img = Inr out \<and> information_of out = info"
  using assms
  by (simp add: reorient_image_def SetSpacing_def axis_spacings_def itk_spatial_axes_def
      CopyInformation_def information_of_def)

text \<open>
  Claim C10. Whatever output information the orientation filter computes, the image that
  is written has the pixel buffer of the fetched level (its elements converted to float32,
  in the same order) and the buffered region of the squeezed array; only the largest
  possible region, spacing, origin and direction are replaced, by those of the filter's
  output. For a three-dimensional level on which the filter succeeds the image is
  written.
\<close>

theorem fetch_and_reorient_keeps_voxels:
  "(\<forall>out. fetch_and_reorient float32 orient level_array = Inr out \<longrightarrow>
      PixelContainer out = map float32 (elements level_array) \<and>
      BufferedRegion out = rev (filter (\<lambda>d. d \<noteq> 1) (shape level_array))) \<and>
   (\<forall>info.
      length (filter (\<lambda>d. d \<noteq> 1) (shape level_array)) = 3 \<and>
      orient RAI LPS
        (information_of
          ((image_view_from_array (astype float32 (squeeze level_array)))
             \<lparr>Spacing := [0.028800000000000003, 0.028800000000000003, 0.032]\<rparr>)) = Inr info \<longrightarrow>
      (\<exists>out. fetch_and_reorient float32 orient level_array = Inr out \<and>
             information_of out = info))"
proof (intro conjI allI impI)
  fix out
  assume "fetch_and_reorient float32 orient level_array = Inr out"
  then have "reorient_image orient (image_view_from_array (astype float32 (squeeze level_array)))
      = Inr out"
    by (simp add: fetch_and_reorient_def)
  from reorient_image_frame [OF this]
  show "PixelContainer out = map float32 (elements level_array)"
    and "BufferedRegion out = rev (filter (\<lambda>d. d \<noteq> 1) (shape level_array))"
    by (simp_all add: image_view_from_array_def astype_def squeeze_def Let_def)
next
  fix info
  assume a: "length (filter (\<lambda>d. d \<noteq> 1) (shape level_array)) = 3 \<and>
      orient RAI LPS
        (information_of
          ((image_view_from_array (astype float32 (squeeze level_array)))
             \<lparr>Spacing := [0.028800000000000003, 0.028800000000000003, 0.032]\<rparr>)) = Inr info"
  have "length (LargestPossibleRegion (image_view_from_array (astype float32 (squeeze level_array)))) = 3"
    using a by (simp add: image_view_from_array_def astype_def squeeze_def Let_def)
  from reorient_image_total [OF this, of orient info] a
  show "\<exists>out. fetch_and_reorient float32 orient level_array = Inr out \<and>
             information_of out = info"
    by (simp add: fetch_and_reorient_def)
qed

theorem fetch_and_reorient_keeps_voxels_witness:
  "\<exists>out. fetch_and_reorient real
           (\<lambda>given desired info. Inr (info\<lparr>Direction := [[-1, 0, 0], [0, -1, 0], [0, 0, -1]]\<rparr>))
           \<lparr>shape = [1, 1, 2, 2, 2], elements = [1, 2, 3, 4, 5, 6, 7, 8 :: nat]\<rparr> = Inr out \<and>
         PixelContainer out = [1, 2, 3, 4, 5, 6, 7, 8] \<and> BufferedRegion out = [2, 2, 2] \<and>
         Direction out = [[-1, 0, 0], [0, -1, 0], [0, 0, -1]]"
proof -
  let ?orient = "\<lambda>(given :: orientation_code) (desired :: orientation_code) (info :: image_information).
      (Inr (info\<lparr>Direction := [[-1, 0, 0], [0, -1, 0], [0, 0, -1]]\<rparr>) :: error + image_information)"
  let ?a = "\<lparr>shape = [1, 1, 2, 2, 2], elements = [1, 2, 3, 4, 5, 6, 7, 8 :: nat]\<rparr>"
  note t = fetch_and_reorient_keeps_voxels [of real ?orient ?a]
  from t obtain out where o: "fetch_and_reorient real ?orient ?a = Inr out"
    and d: "Direction (information_of out) = [[-1, 0, 0], [0, -1, 0], [0, 0, -1]]"
    by (auto simp: squeeze_def)
  from t o have "PixelContainer out = [1, 2, 3, 4, 5, 6, 7, 8]" and "BufferedRegion out = [2, 2, 2]"
    by auto
  moreover from d have "Direction out = [[-1, 0, 0], [0, -1, 0], [0, 0, -1]]"
    by (simp add: information_of_def)
  ultimately show ?thesis using o by blast
qed


end
